theory Spec2Isabelle
  imports Main
begin

section \<open>The DevOps operator of ks-devops (pkg/models/devops/devops.go)\<close>

text \<open>
  The operator sits between a resource store (projects, pipelines) and a remote
  CI engine. Each Go method becomes a HOL function; the store is passed in and
  returned, a failure is a value of \<open>error\<close>, and the calls to collaborators that
  are not part of the operator (the engine client, the JSON codec, the store's list
  call) are function arguments.
\<close>

subsection \<open>Errors and the ways a Go call can end\<close>

datatype error =
    NotFound string                          \<comment> \<open>the store has no such object\<close>
  | Conflict string                          \<comment> \<open>the version token is stale\<close>
  | InvalidEditMode string                   \<comment> \<open>\<open>fmt.Errorf("invalid edit mode: %s", mode)\<close>\<close>
  | CannotFoundPipeline string string error  \<comment> \<open>\<open>fmt.Errorf("cannot found pipeline %s/%s, error: %v", ...)\<close>\<close>
  | Upstream string                          \<comment> \<open>any failure of a collaborator\<close>

datatype 'a outcome =
    Return 'a      \<comment> \<open>the call returns\<close>
  | Panics         \<comment> \<open>a run-time panic (slice bounds, index out of range)\<close>
  | Blocked        \<comment> \<open>the call never returns: it waits for an event that cannot happen\<close>

subsection \<open>Pipelines and the resource store\<close>

text \<open>
  Modelled from the spec: the declarations of package \<open>v1alpha3\<close> (the Pipeline
  resource, its spec, the annotation keys and the two edit modes) are not among the
  sources. A pipeline carries its name, the store's version token, its annotations
  (\<open>None\<close> is Go's nil map) and a spec whose \<open>Pipeline\<close> section is a pointer that may
  be nil and holds the Jenkinsfile.
\<close>

record NoScmPipeline =
  Description :: string
  Jenkinsfile :: string

record PipelineSpec =
  Type :: string
  Pipeline :: "NoScmPipeline option"

record Pipeline =
  Name :: string
  ResourceVersion :: nat
  Annotations :: "(string \<rightharpoonup> string) option"
  Spec :: PipelineSpec

definition PipelineJenkinsfileEditModeJSON :: string where
  "PipelineJenkinsfileEditModeJSON = ''json''"

definition PipelineJenkinsfileEditModeRaw :: string where
  "PipelineJenkinsfileEditModeRaw = ''raw''"

definition PipelineJenkinsfileEditModeAnnoKey :: string where
  "PipelineJenkinsfileEditModeAnnoKey = ''pipeline.devops.kubesphere.io/jenkinsfile.edit.mode''"

definition PipelineJenkinsfileValueAnnoKey :: string where
  "PipelineJenkinsfileValueAnnoKey = ''pipeline.devops.kubesphere.io/jenkinsfile''"

text \<open>
  Modelled from the spec: the resource store (the generated clientset) is a
  collaborator, "typed get/list/create/update/delete per resource kind, namespace-
  and label-selector-scoped, optimistic concurrency via a version token on update".
  Projects are keyed by name, pipelines by namespace and name. \<open>Get\<close> hands out a copy
  of the stored object; \<open>Update\<close> replaces the stored object by the given one when
  the version token matches, and issues a new token.
\<close>

record DevOpsProject =
  ProjectName :: string
  AdminNamespace :: string

record store =
  projects :: "string \<rightharpoonup> DevOpsProject"
  pipelines :: "string \<times> string \<rightharpoonup> Pipeline"

definition getProject :: "store \<Rightarrow> string \<Rightarrow> error + DevOpsProject" where
  "getProject st name =
     (case projects st name of None \<Rightarrow> Inl (NotFound name) | Some p \<Rightarrow> Inr p)"

definition getPipeline :: "store \<Rightarrow> string \<Rightarrow> string \<Rightarrow> error + Pipeline" where
  "getPipeline st ns name =
     (case pipelines st (ns, name) of None \<Rightarrow> Inl (NotFound name) | Some p \<Rightarrow> Inr p)"

definition updatePipeline :: "store \<Rightarrow> string \<Rightarrow> Pipeline \<Rightarrow> (error + Pipeline) \<times> store" where
  "updatePipeline st ns obj =
     (case pipelines st (ns, Name obj) of
        None \<Rightarrow> (Inl (NotFound (Name obj)), st)
      | Some cur \<Rightarrow>
          if ResourceVersion obj = ResourceVersion cur then
            (let stored = obj\<lparr>ResourceVersion := Suc (ResourceVersion cur)\<rparr>
             in (Inr stored, st\<lparr>pipelines := (pipelines st)((ns, Name obj) \<mapsto> stored)\<rparr>))
          else (Inl (Conflict (Name obj)), st))"

subsection \<open>UpdateJenkinsfile\<close>

text \<open>
  \<open>pipeline.Annotations[key] = value\<close> after the nil check of the source: a nil map
  is replaced by an empty one before the first write.
\<close>

definition setAnnotation :: "string \<Rightarrow> string \<Rightarrow> Pipeline \<Rightarrow> Pipeline" where
  "setAnnotation k v p =
     p\<lparr>Annotations :=
         Some ((case Annotations p of None \<Rightarrow> Map.empty | Some m \<Rightarrow> m)(k \<mapsto> v))\<rparr>"

definition getAnnotation :: "Pipeline \<Rightarrow> string \<Rightarrow> string option" where
  "getAnnotation p k = (case Annotations p of None \<Rightarrow> None | Some m \<Rightarrow> m k)"

text \<open>
  The method returns only an error (\<open>None\<close> is nil); the store it leaves behind is
  the second component. The namespace of the lookup is \<open>projectName\<close> itself.
\<close>

definition UpdateJenkinsfile ::
  "store \<Rightarrow> string \<Rightarrow> string \<Rightarrow> string \<Rightarrow> string \<Rightarrow> error option \<times> store" where
  "UpdateJenkinsfile st projectName pipelineName mode jenkinsfile =
     (case getPipeline st projectName pipelineName of
        Inl err \<Rightarrow> (Some err, st)
      | Inr got \<Rightarrow>
          (let pipeline = setAnnotation PipelineJenkinsfileEditModeAnnoKey mode got in
           if mode = PipelineJenkinsfileEditModeJSON then
             (let pipeline = setAnnotation PipelineJenkinsfileValueAnnoKey jenkinsfile pipeline
              in case updatePipeline st projectName pipeline of
                   (Inl err, st') \<Rightarrow> (Some err, st')
                 | (Inr _, st') \<Rightarrow> (None, st'))
           else if mode = PipelineJenkinsfileEditModeRaw then
             (let pipeline =
                    (case Pipeline (Spec pipeline) of
                       None \<Rightarrow> pipeline
                     | Some np \<Rightarrow>
                         pipeline\<lparr>Spec := (Spec pipeline)
                                    \<lparr>Pipeline := Some (np\<lparr>Jenkinsfile := jenkinsfile\<rparr>)\<rparr>\<rparr>)
              in case updatePipeline st projectName pipeline of
                   (Inl err, st') \<Rightarrow> (Some err, st')
                 | (Inr _, st') \<Rightarrow> (None, st'))
           else (Some (InvalidEditMode mode), st)))"

text \<open>What the store holds for a pipeline's Jenkinsfile in its spec, if it has the section.\<close>

definition storedJenkinsfile :: "store \<Rightarrow> string \<Rightarrow> string \<Rightarrow> string option" where
  "storedJenkinsfile st ns name =
     (case pipelines st (ns, name) of
        None \<Rightarrow> None
      | Some p \<Rightarrow> map_option Jenkinsfile (Pipeline (Spec p)))"

text \<open>What the store holds under an annotation key of a pipeline.\<close>

definition storedAnnotation :: "store \<Rightarrow> string \<Rightarrow> string \<Rightarrow> string \<Rightarrow> string option" where
  "storedAnnotation st ns name k =
     (case pipelines st (ns, name) of None \<Rightarrow> None | Some p \<Rightarrow> getAnnotation p k)"

subsection \<open>UpdatePipelineObj\<close>

text \<open>
  The project is resolved to its admin namespace, the latest stored pipeline is
  fetched for its version token, and its Jenkinsfile is copied onto the caller's
  object when both objects have the pipeline section (the guard of the source).
\<close>

definition UpdatePipelineObj ::
  "store \<Rightarrow> string \<Rightarrow> Pipeline \<Rightarrow> (error + Pipeline) \<times> store" where
  "UpdatePipelineObj st projectName pipeline =
     (case getProject st projectName of
        Inl err \<Rightarrow> (Inl err, st)
      | Inr projectObj \<Rightarrow>
          (let ns = AdminNamespace projectObj; name = Name pipeline in
           case getPipeline st ns name of
             Inr latestPipe \<Rightarrow>
               (let pipeline = pipeline\<lparr>ResourceVersion := ResourceVersion latestPipe\<rparr>;
                    pipeline =
                      (case (Pipeline (Spec pipeline), Pipeline (Spec latestPipe)) of
                         (Some mine, Some latest) \<Rightarrow>
                           pipeline\<lparr>Spec := (Spec pipeline)
                             \<lparr>Pipeline := Some (mine\<lparr>Jenkinsfile := Jenkinsfile latest\<rparr>)\<rparr>\<rparr>
                       | _ \<Rightarrow> pipeline)
                in updatePipeline st ns pipeline)
           | Inl err \<Rightarrow> (Inl (CannotFoundPipeline ns name err), st)))"

subsection \<open>ListDevOpsProject\<close>

text \<open>
  Go's \<open>int\<close> is a 64-bit signed integer: sums and differences wrap around.
\<close>

definition wrap64 :: "int \<Rightarrow> int" where
  "wrap64 x = (x + 2 ^ 63) mod 2 ^ 64 - 2 ^ 63"

text \<open>
  A slice is \<open>None\<close> when it is nil. The slice expression \<open>s[low:high]\<close> panics unless
  \<open>0 \<le> low \<le> high \<le> cap(s)\<close>; of a nil slice, \<open>s[0:0]\<close> is nil again. The bound used
  here is the length: in \<open>ListDevOpsProject\<close> the upper index never exceeds
  \<open>len(result)\<close>, which is at most the capacity.
\<close>

definition sliceExpr :: "'a list option \<Rightarrow> int \<Rightarrow> int \<Rightarrow> 'a list option outcome" where
  "sliceExpr s low high =
     (let xs = (case s of None \<Rightarrow> [] | Some ys \<Rightarrow> ys) in
      if 0 \<le> low \<and> low \<le> high \<and> high \<le> int (length xs) then
        Return (case s of
                  None \<Rightarrow> None
                | Some _ \<Rightarrow> Some (take (nat (high - low)) (drop (nat low) xs)))
      else Panics)"

text \<open>
  Modelled from the spec: \<open>api.ListResult\<close> is declared outside the sources; it holds
  the page of items and the total count.
\<close>

record 'a ListResult =
  Items :: "'a list option"
  TotalItems :: int

text \<open>
  \<open>listed\<close> is what the store's list call returned. The workspace is not used by the
  source. On a failed list call the source returns \<open>api.ListResult{}, nil\<close>: an empty
  result and no error.
\<close>

definition ListDevOpsProject ::
  "(error + 'a list) \<Rightarrow> string \<Rightarrow> int \<Rightarrow> int \<Rightarrow> (error + 'a ListResult) outcome" where
  "ListDevOpsProject listed workspace limit offset =
     (case listed of
        Inl err \<Rightarrow> Return (Inr \<lparr>Items = None, TotalItems = 0\<rparr>)
      | Inr projectItems \<Rightarrow>
          (let result = (if projectItems = [] then None else Some projectItems);
               len = int (length projectItems);
               limit = (if limit = - 1 \<or> len < wrap64 (limit + offset)
                        then wrap64 (len - offset) else limit)
           in case sliceExpr result offset (wrap64 (offset + limit)) of
                Return items \<Rightarrow>
                  Return (Inr \<lparr>Items = Some (case items of None \<Rightarrow> [] | Some xs \<Rightarrow> xs),
                               TotalItems = len\<rparr>)
              | Panics \<Rightarrow> Panics
              | Blocked \<Rightarrow> Blocked))"

subsection \<open>ListPipelineObj\<close>

text \<open>
  Modelled from the spec: the query type and \<open>query.FieldType\<close> are declared outside
  the sources; a query carries its filters and a label selector, and the type filter
  is the filter on the \<open>type\<close> field.
\<close>

record Query =
  Filters :: "string \<rightharpoonup> string"
  LabelSelector :: string

definition FieldType :: string where
  "FieldType = ''type''"

text \<open>
  The loop that builds the object list handed to the generic list routine. An entry
  is a \<open>runtime.Object\<close>: \<open>None\<close> is the nil interface value. The list starts as
  \<open>make([]runtime.Object, len(pipelines.Items))\<close>, that is with one nil entry per
  fetched pipeline, and every pipeline that passes the filter is appended.
\<close>

definition pipelineObjects :: "Query \<Rightarrow> Pipeline list \<Rightarrow> Pipeline option list" where
  "pipelineObjects queryParam pipelineItems =
     (let typeExist = (Filters queryParam FieldType \<noteq> None);
          pipelineType = (case Filters queryParam FieldType of None \<Rightarrow> [] | Some t \<Rightarrow> t)
      in fold (\<lambda>item result.
                 if typeExist \<and> Type (Spec item) \<noteq> pipelineType then result
                 else result @ [Some item])
           pipelineItems (replicate (length pipelineItems) None))"

text \<open>
  \<open>listPipelines\<close> is the store's list call (namespace, label selector) and
  \<open>DefaultList\<close> the generic paginate/sort/filter routine.
\<close>

definition ListPipelineObj ::
  "store \<Rightarrow> (string \<Rightarrow> string \<Rightarrow> error + Pipeline list) \<Rightarrow>
   (Pipeline option list \<Rightarrow> Query \<Rightarrow> 'r) \<Rightarrow> string \<Rightarrow> Query \<Rightarrow> error + 'r" where
  "ListPipelineObj st listPipelines DefaultList projectName queryParam =
     (case getProject st projectName of
        Inl err \<Rightarrow> Inl err
      | Inr project \<Rightarrow>
          (case listPipelines (AdminNamespace project) (LabelSelector queryParam) of
             Inl err \<Rightarrow> Inl err
           | Inr pipelineItems \<Rightarrow>
               Inr (DefaultList (pipelineObjects queryParam pipelineItems) queryParam)))"

subsection \<open>The request adapter and the proxy operations\<close>

text \<open>
  Modelled from the spec: \<open>devops.HttpParameters\<close> is declared outside the sources,
  "method, headers, body stream, parsed form, raw URL". The inbound request is the
  part of \<open>http.Request\<close> that the adapter reads.
\<close>

record Request =
  Method :: string
  Header :: "(string \<times> string list) list"
  Body :: "string option"
  Form :: "(string \<times> string list) list"
  PostForm :: "(string \<times> string list) list"
  URL :: string

record HttpParameters =
  Method :: string
  Header :: "(string \<times> string list) list"
  Body :: "string option"
  Form :: "(string \<times> string list) list"
  PostForm :: "(string \<times> string list) list"
  Url :: string

definition MethodGet :: string where
  "MethodGet = ''GET''"

definition MethodPut :: string where
  "MethodPut = ''PUT''"

definition convertToHttpParameters :: "Request \<Rightarrow> HttpParameters" where
  "convertToHttpParameters req =
     \<lparr>HttpParameters.Method = Request.Method req,
      HttpParameters.Header = Request.Header req,
      HttpParameters.Body = Request.Body req,
      HttpParameters.Form = Request.Form req,
      HttpParameters.PostForm = Request.PostForm req,
      HttpParameters.Url = Request.URL req\<rparr>"

text \<open>
  Each proxy takes the engine client's method as \<open>client\<close>. The source logs an error
  and returns it; the result of the client is handed back as it is. Where the source
  assigns \<open>req.Method\<close>, the request is updated before it is converted.
\<close>

definition StopPipeline ::
  "(string \<Rightarrow> string \<Rightarrow> string \<Rightarrow> HttpParameters \<Rightarrow> error + 'r) \<Rightarrow>
   string \<Rightarrow> string \<Rightarrow> string \<Rightarrow> Request \<Rightarrow> error + 'r" where
  "StopPipeline client projectName pipelineName runId req =
     (let req = req\<lparr>Request.Method := MethodPut\<rparr> in
      case client projectName pipelineName runId (convertToHttpParameters req) of
        Inl err \<Rightarrow> Inl err
      | Inr res \<Rightarrow> Inr res)"

definition ReplayPipeline ::
  "(string \<Rightarrow> string \<Rightarrow> string \<Rightarrow> HttpParameters \<Rightarrow> error + 'r) \<Rightarrow>
   string \<Rightarrow> string \<Rightarrow> string \<Rightarrow> Request \<Rightarrow> error + 'r" where
  "ReplayPipeline client projectName pipelineName runId req =
     (case client projectName pipelineName runId (convertToHttpParameters req) of
        Inl err \<Rightarrow> Inl err
      | Inr res \<Rightarrow> Inr res)"

definition StopBranchPipeline ::
  "(string \<Rightarrow> string \<Rightarrow> string \<Rightarrow> string \<Rightarrow> HttpParameters \<Rightarrow> error + 'r) \<Rightarrow>
   string \<Rightarrow> string \<Rightarrow> string \<Rightarrow> string \<Rightarrow> Request \<Rightarrow> error + 'r" where
  "StopBranchPipeline client projectName pipelineName branchName runId req =
     (let req = req\<lparr>Request.Method := MethodPut\<rparr> in
      case client projectName pipelineName branchName runId (convertToHttpParameters req) of
        Inl err \<Rightarrow> Inl err
      | Inr res \<Rightarrow> Inr res)"

definition ReplayBranchPipeline ::
  "(string \<Rightarrow> string \<Rightarrow> string \<Rightarrow> string \<Rightarrow> HttpParameters \<Rightarrow> error + 'r) \<Rightarrow>
   string \<Rightarrow> string \<Rightarrow> string \<Rightarrow> string \<Rightarrow> Request \<Rightarrow> error + 'r" where
  "ReplayBranchPipeline client projectName pipelineName branchName runId req =
     (case client projectName pipelineName branchName runId (convertToHttpParameters req) of
        Inl err \<Rightarrow> Inl err
      | Inr res \<Rightarrow> Inr res)"

definition GetSCMServers ::
  "(string \<Rightarrow> HttpParameters \<Rightarrow> error + 'r) \<Rightarrow> string \<Rightarrow> Request \<Rightarrow> error + 'r" where
  "GetSCMServers client scmId req =
     (let req = req\<lparr>Request.Method := MethodGet\<rparr> in
      client scmId (convertToHttpParameters req))"

subsection \<open>getInputReqBody\<close>

text \<open>
  Modelled from the spec: \<open>devops.CheckPlayload\<close> is declared outside the sources; the
  payload is parsed "as {id, parameters, abort}". A nil parameter list is \<open>None\<close>, an
  empty one that is present is \<open>Some []\<close>.
\<close>

type_synonym CheckPlayloadParameters = "string \<times> string"  \<comment> \<open>name and value\<close>

record CheckPlayload =
  ID :: string
  Parameters :: "CheckPlayloadParameters list option"
  Abort :: bool

text \<open>The anonymous struct \<open>workRound\<close> of the source, with the same three fields.\<close>

record workRound =
  ID :: string
  Parameters :: "CheckPlayloadParameters list option"
  Abort :: bool

text \<open>
  The new body is the JSON encoding of one of the two structs; the encoder is a
  library, so the body is represented by the value that was encoded.
\<close>

datatype reqBody =
    MarshalWorkRound workRound
  | MarshalCheckBody CheckPlayload

text \<open>
  \<open>readAll\<close> is the outcome of \<open>ioutil.ReadAll(reqBody)\<close>. \<open>unmarshal\<close> is
  \<open>json.Unmarshal\<close> into a zero \<open>CheckPlayload\<close>: it yields the error, if any, and
  the struct as far as it was filled. The source assigns that error to \<open>err\<close> and
  does not read it again: the function ends with \<open>return newReqBody, nil\<close>.
\<close>

definition getInputReqBody ::
  "(string \<Rightarrow> error option \<times> CheckPlayload) \<Rightarrow> error + string \<Rightarrow> error + reqBody" where
  "getInputReqBody unmarshal readAll =
     (case readAll of
        Inl err \<Rightarrow> Inl err
      | Inr Body' \<Rightarrow>
          (let (err, checkBody) = unmarshal Body' in
           if CheckPlayload.Abort checkBody \<noteq> True \<and> CheckPlayload.Parameters checkBody = None
           then Inr (MarshalWorkRound
                       \<lparr>workRound.ID = CheckPlayload.ID checkBody,
                        workRound.Parameters = Some [],
                        workRound.Abort = False\<rparr>)
           else Inr (MarshalCheckBody checkBody)))"

subsection \<open>The run detail aggregator: GetNodesDetail and GetBranchNodesDetail\<close>

definition channelMaxCapacity :: nat where
  "channelMaxCapacity = 100"

text \<open>
  Modelled from the spec: the node, step and node-detail types of package
  \<open>pkg/client/devops\<close> are declared outside the sources. A node "has an identifier";
  a node detail has the fields of a node and a list of steps, so that the
  serialize/deserialize round trip of the source ("deep-copy the node list into the
  node-detail result shape") yields, for every node, the detail with the same fields
  and no steps. \<open>NodesStepsIndex\<close> is the "pairing of (index, steps)".
\<close>

record NodeSteps =
  StepID :: string
  StepResult :: string

record PipelineRunNodes =
  ID :: string
  DisplayName :: string
  State :: string

record NodesDetail = PipelineRunNodes +
  Steps :: "NodeSteps list"

record NodesStepsIndex =
  Id' :: nat
  Steps :: "NodeSteps list"

definition toNodesDetail :: "PipelineRunNodes \<Rightarrow> NodesDetail" where
  "toNodesDetail n = PipelineRunNodes.extend n (NodesDetail.fields [])"

text \<open>
  The state the goroutines share: the buffered channel \<open>stepChan\<close> (its pending
  elements, oldest first) and the counter of the wait group.
\<close>

record fanout =
  stepChan :: "NodesStepsIndex list"
  wg :: nat

text \<open>
  The body of the goroutine started for the node at position \<open>index\<close>. When the step
  fetch fails the goroutine logs and returns: \<open>wg.Done()\<close> is not reached. Otherwise it
  sends the pair and then calls \<open>wg.Done()\<close>. Nothing receives from the channel before
  \<open>wg.Wait()\<close> has returned, so a send on a full channel never completes, and the
  goroutine never reaches \<open>wg.Done()\<close> either. Every goroutine is added to the wait
  group before it is started, so the counter is positive when \<open>wg.Done()\<close> is reached.
\<close>

definition worker ::
  "(string \<Rightarrow> error + NodeSteps list) \<Rightarrow> string \<Rightarrow> nat \<Rightarrow> fanout \<Rightarrow> fanout" where
  "worker getNodeSteps nodeId index s =
     (case getNodeSteps nodeId of
        Inl err \<Rightarrow> s
      | Inr steps \<Rightarrow>
          if length (stepChan s) < channelMaxCapacity then
            s\<lparr>stepChan := stepChan s @ [\<lparr>Id' = index, Steps = steps\<rparr>], wg := wg s - 1\<rparr>
          else s)"

text \<open>
  The loop over the closed channel: the steps of each pair are appended to the entry
  at the pair's index. An index outside the array would panic (\<open>None\<close>).
\<close>

fun drain :: "NodesStepsIndex list \<Rightarrow> NodesDetail list \<Rightarrow> NodesDetail list option" where
  "drain [] nodesDetails = Some nodesDetails"
| "drain (oneNodeSteps # rest) nodesDetails =
     (let i = Id' oneNodeSteps in
      if i < length nodesDetails then
        drain rest
          (nodesDetails[i := (nodesDetails ! i)
             \<lparr>NodesDetail.Steps :=
                NodesDetail.Steps (nodesDetails ! i) @ NodesStepsIndex.Steps oneNodeSteps\<rparr>])
      else None)"

text \<open>
  The fan-out and the gathering. \<open>ids\<close> are the node identifiers by position; the loop
  of the source adds one to the wait group and starts one goroutine per position.
  \<open>order\<close> is the schedule: the positions in the order in which their goroutines
  reach the send, which is also the order of the pairs in the channel. A goroutine
  acts on the shared state only by its send and the \<open>wg.Done()\<close> that follows it, and
  the main goroutine reads the channel only after \<open>wg.Wait()\<close>, so the outcome depends
  on the interleaving through this order alone; a schedule of a run lists every
  position once. \<open>wg.Wait()\<close> returns when the counter is zero; when the goroutines
  have all run as far as they can and the counter is still positive, it never
  returns.
\<close>

definition gather ::
  "(string \<Rightarrow> error + NodeSteps list) \<Rightarrow> string list \<Rightarrow> nat list \<Rightarrow> NodesDetail list \<Rightarrow>
   (error + NodesDetail list) outcome" where
  "gather getNodeSteps ids order nodesDetails =
     (let s = fold (\<lambda>i. worker getNodeSteps (ids ! i) i) order
                \<lparr>stepChan = [], wg = length ids\<rparr>
      in if wg s \<noteq> 0 then Blocked
         else case drain (stepChan s) nodesDetails of
                None \<Rightarrow> Panics
              | Some filled \<Rightarrow> Return (Inr filled))"

text \<open>
  \<open>respNodes\<close> is the outcome of the node-listing call, \<open>getNodeSteps\<close> the step-listing
  call by node identifier (project, pipeline and run are fixed during one call).
\<close>

definition GetNodesDetail ::
  "(error + PipelineRunNodes list) \<Rightarrow> (string \<Rightarrow> error + NodeSteps list) \<Rightarrow> nat list \<Rightarrow>
   (error + NodesDetail list) outcome" where
  "GetNodesDetail respNodes getNodeSteps order =
     (case respNodes of
        Inl err \<Rightarrow> Return (Inl err)
      | Inr nodes \<Rightarrow>
          gather getNodeSteps (map PipelineRunNodes.ID nodes) order (map toNodesDetail nodes))"

text \<open>The branch variant reads the identifiers from the copied node details.\<close>

definition GetBranchNodesDetail ::
  "(error + PipelineRunNodes list) \<Rightarrow> (string \<Rightarrow> error + NodeSteps list) \<Rightarrow> nat list \<Rightarrow>
   (error + NodesDetail list) outcome" where
  "GetBranchNodesDetail respNodes getBranchNodeSteps order =
     (case respNodes of
        Inl err \<Rightarrow> Return (Inl err)
      | Inr nodes \<Rightarrow>
          (let nodesDetails = map toNodesDetail nodes in
           gather getBranchNodeSteps (map PipelineRunNodes.ID nodesDetails) order nodesDetails))"

subsection \<open>Concrete inputs used to exercise the operations\<close>

definition multiBranchPipe :: Pipeline where
  "multiBranchPipe =
     \<lparr>Name = ''mb'', ResourceVersion = 7, Annotations = None,
      Spec = \<lparr>Type = ''multi-branch-pipeline'', Pipeline = None\<rparr>\<rparr>"

definition simplePipe :: Pipeline where
  "simplePipe =
     \<lparr>Name = ''build'', ResourceVersion = 3, Annotations = None,
      Spec = \<lparr>Type = ''pipeline'',
              Pipeline = Some \<lparr>Description = ''nightly'', Jenkinsfile = ''node { old }''\<rparr>\<rparr>\<rparr>"

definition demoStore :: store where
  "demoStore =
     \<lparr>projects = [''proj'' \<mapsto> \<lparr>ProjectName = ''proj'', AdminNamespace = ''proj-ns''\<rparr>],
      pipelines = [(''proj-ns'', ''mb'') \<mapsto> multiBranchPipe,
                   (''proj-ns'', ''build'') \<mapsto> simplePipe]\<rparr>"

definition callerWithoutSection :: Pipeline where
  "callerWithoutSection =
     \<lparr>Name = ''build'', ResourceVersion = 0, Annotations = None,
      Spec = \<lparr>Type = ''pipeline'', Pipeline = None\<rparr>\<rparr>"

definition callerWithJenkinsfile :: Pipeline where
  "callerWithJenkinsfile =
     \<lparr>Name = ''build'', ResourceVersion = 0, Annotations = None,
      Spec = \<lparr>Type = ''pipeline'',
              Pipeline = Some \<lparr>Description = ''weekly'', Jenkinsfile = ''node { injected }''\<rparr>\<rparr>\<rparr>"

definition callerForMultiBranch :: Pipeline where
  "callerForMultiBranch =
     \<lparr>Name = ''mb'', ResourceVersion = 0, Annotations = None,
      Spec = \<lparr>Type = ''multi-branch-pipeline'',
              Pipeline = Some \<lparr>Description = ''added'', Jenkinsfile = ''node { injected }''\<rparr>\<rparr>\<rparr>"

definition jsonPipe :: Pipeline where
  "jsonPipe =
     \<lparr>Name = ''release'', ResourceVersion = 5,
      Annotations = Some [PipelineJenkinsfileEditModeAnnoKey \<mapsto> ''json'',
                          PipelineJenkinsfileValueAnnoKey \<mapsto> ''{json pipeline}''],
      Spec = \<lparr>Type = ''pipeline'',
              Pipeline = Some \<lparr>Description = ''release'', Jenkinsfile = ''node { old }''\<rparr>\<rparr>\<rparr>"

definition callerWithAnnotation :: Pipeline where
  "callerWithAnnotation =
     \<lparr>Name = ''release'', ResourceVersion = 0,
      Annotations = Some [PipelineJenkinsfileValueAnnoKey \<mapsto> ''{injected}''],
      Spec = \<lparr>Type = ''pipeline'',
              Pipeline = Some \<lparr>Description = ''release'', Jenkinsfile = ''node { injected }''\<rparr>\<rparr>\<rparr>"

definition jsonStore :: store where
  "jsonStore =
     \<lparr>projects = [''proj'' \<mapsto> \<lparr>ProjectName = ''proj'', AdminNamespace = ''proj-ns''\<rparr>],
      pipelines = [(''proj-ns'', ''release'') \<mapsto> jsonPipe]\<rparr>"

definition nodeA :: PipelineRunNodes where
  "nodeA = \<lparr>ID = ''6'', DisplayName = ''build'', State = ''FINISHED''\<rparr>"

definition nodeB :: PipelineRunNodes where
  "nodeB = \<lparr>ID = ''11'', DisplayName = ''deploy'', State = ''RUNNING''\<rparr>"

definition stepsOK :: "string \<Rightarrow> error + NodeSteps list" where
  "stepsOK nodeId =
     (if nodeId = ''6'' then Inr [\<lparr>StepID = ''7'', StepResult = ''SUCCESS''\<rparr>]
      else Inr [\<lparr>StepID = ''12'', StepResult = ''UNKNOWN''\<rparr>, \<lparr>StepID = ''13'', StepResult = ''UNKNOWN''\<rparr>])"

definition stepsFailFor11 :: "string \<Rightarrow> error + NodeSteps list" where
  "stepsFailFor11 nodeId =
     (if nodeId = ''11'' then Inl (Upstream ''connection refused'')
      else Inr [\<lparr>StepID = ''7'', StepResult = ''SUCCESS''\<rparr>])"

definition postRequest :: Request where
  "postRequest =
     \<lparr>Request.Method = ''POST'', Request.Header = [(''Content-Type'', [''application/json''])],
      Request.Body = None, Request.Form = [], Request.PostForm = [],
      Request.URL = ''/devops/proj/pipelines/build/runs/1/replay''\<rparr>"

definition zeroCheckPlayload :: CheckPlayload where
  "zeroCheckPlayload = \<lparr>CheckPlayload.ID = [], CheckPlayload.Parameters = None, CheckPlayload.Abort = False\<rparr>"

definition brokenJSON :: "string \<Rightarrow> error option \<times> CheckPlayload" where
  "brokenJSON body = (Some (Upstream ''unexpected end of JSON input''), zeroCheckPlayload)"

section \<open>Properties\<close>

subsection \<open>Helper facts about the store\<close>

lemma getPipeline_Inr_iff: "getPipeline st ns name = Inr p \<longleftrightarrow> pipelines st (ns, name) = Some p"
  by (simp add: getPipeline_def split: option.splits)

lemma Name_setAnnotation: "Name (setAnnotation k v p) = Name p"
  by (simp add: setAnnotation_def)

lemma ResourceVersion_setAnnotation: "ResourceVersion (setAnnotation k v p) = ResourceVersion p"
  by (simp add: setAnnotation_def)

lemma Spec_setAnnotation: "Spec (setAnnotation k v p) = Spec p"
  by (simp add: setAnnotation_def)

lemma updatePipeline_current:
  assumes "pipelines st (ns, Name obj) = Some cur" and "ResourceVersion obj = ResourceVersion cur"
  shows "updatePipeline st ns obj =
           (Inr (obj\<lparr>ResourceVersion := Suc (ResourceVersion cur)\<rparr>),
            st\<lparr>pipelines := (pipelines st)((ns, Name obj) \<mapsto>
                  obj\<lparr>ResourceVersion := Suc (ResourceVersion cur)\<rparr>)\<rparr>)"
  using assms by (simp add: updatePipeline_def Let_def)

lemma getAnnotation_setAnnotation:
  "getAnnotation (setAnnotation k v p) k' = (if k' = k then Some v else getAnnotation p k')"
  by (simp add: getAnnotation_def setAnnotation_def split: option.splits)

lemma getAnnotation_ResourceVersion:
  "getAnnotation (p\<lparr>ResourceVersion := n\<rparr>) k = getAnnotation p k"
  by (simp add: getAnnotation_def)

lemma getAnnotation_Spec:
  "getAnnotation (p\<lparr>Spec := sp\<rparr>) k = getAnnotation p k"
  by (simp add: getAnnotation_def)

lemma getPipeline_update:
  "getPipeline (st\<lparr>pipelines := (pipelines st)((ns, name) \<mapsto> p)\<rparr>) ns name = Inr p"
  by (simp add: getPipeline_def)

lemma anno_keys_distinct: "PipelineJenkinsfileEditModeAnnoKey \<noteq> PipelineJenkinsfileValueAnnoKey"
  by (simp add: PipelineJenkinsfileEditModeAnnoKey_def PipelineJenkinsfileValueAnnoKey_def)

lemma edit_modes_distinct: "PipelineJenkinsfileEditModeRaw \<noteq> PipelineJenkinsfileEditModeJSON"
  by (simp add: PipelineJenkinsfileEditModeRaw_def PipelineJenkinsfileEditModeJSON_def)

subsection \<open>UpdateJenkinsfile in raw mode on a pipeline without the pipeline section\<close>

text \<open>The store after the call, as an equation.\<close>

lemma UpdateJenkinsfile_raw_without_section_eq:
  assumes "getPipeline st projectName pipelineName = Inr p"
    and "Name p = pipelineName"
    and "Pipeline (Spec p) = None"
  shows "UpdateJenkinsfile st projectName pipelineName PipelineJenkinsfileEditModeRaw content =
           (None,
            st\<lparr>pipelines := (pipelines st)((projectName, pipelineName) \<mapsto>
                 (setAnnotation PipelineJenkinsfileEditModeAnnoKey PipelineJenkinsfileEditModeRaw p)
                   \<lparr>ResourceVersion := Suc (ResourceVersion p)\<rparr>)\<rparr>)"
proof -
  let ?q = "setAnnotation PipelineJenkinsfileEditModeAnnoKey PipelineJenkinsfileEditModeRaw p"
  have stored: "pipelines st (projectName, Name ?q) = Some p"
    using assms(1,2) by (simp add: getPipeline_Inr_iff Name_setAnnotation)
  have upd: "updatePipeline st projectName ?q =
               (Inr (?q\<lparr>ResourceVersion := Suc (ResourceVersion p)\<rparr>),
                st\<lparr>pipelines := (pipelines st)((projectName, Name ?q) \<mapsto>
                      ?q\<lparr>ResourceVersion := Suc (ResourceVersion p)\<rparr>)\<rparr>)"
    by (rule updatePipeline_current [OF stored]) (simp add: ResourceVersion_setAnnotation)
  show ?thesis
    using assms(2,3) edit_modes_distinct
    by (simp add: UpdateJenkinsfile_def assms(1) Spec_setAnnotation upd Name_setAnnotation)
qed

text \<open>
  C10. When the stored pipeline's spec has no nested pipeline section
  (\<open>Spec.Pipeline\<close> is nil), \<open>UpdateJenkinsfile\<close> with mode \<open>raw\<close> returns no error and
  writes the pipeline back with its edit-mode annotation set to \<open>raw\<close>. The content
  is stored nowhere: in the stored pipeline every other annotation is as it was,
  the spec is as it was and still has no pipeline section, the name is the same and
  the version token is the store's next one; the rest of the store is untouched, and
  the call leaves the same store behind for any other content.
\<close>

theorem UpdateJenkinsfile_raw_without_section:
  assumes "getPipeline st projectName pipelineName = Inr p"
    and "Name p = pipelineName"
    and "Pipeline (Spec p) = None"
  shows "\<exists>st' p'.
           UpdateJenkinsfile st projectName pipelineName PipelineJenkinsfileEditModeRaw content = (None, st')
           \<and> getPipeline st' projectName pipelineName = Inr p'
           \<and> getAnnotation p' PipelineJenkinsfileEditModeAnnoKey = Some PipelineJenkinsfileEditModeRaw
           \<and> (\<forall>k. k \<noteq> PipelineJenkinsfileEditModeAnnoKey \<longrightarrow> getAnnotation p' k = getAnnotation p k)
           \<and> Spec p' = Spec p
           \<and> Pipeline (Spec p') = None
           \<and> Name p' = Name p
           \<and> ResourceVersion p' = Suc (ResourceVersion p)
           \<and> projects st' = projects st
           \<and> (\<forall>key. key \<noteq> (projectName, pipelineName) \<longrightarrow> pipelines st' key = pipelines st key)
           \<and> UpdateJenkinsfile st projectName pipelineName PipelineJenkinsfileEditModeRaw content' = (None, st')"
proof -
  let ?p' = "(setAnnotation PipelineJenkinsfileEditModeAnnoKey PipelineJenkinsfileEditModeRaw p)
               \<lparr>ResourceVersion := Suc (ResourceVersion p)\<rparr>"
  let ?st' = "st\<lparr>pipelines := (pipelines st)((projectName, pipelineName) \<mapsto> ?p')\<rparr>"
  have run: "UpdateJenkinsfile st projectName pipelineName PipelineJenkinsfileEditModeRaw c = (None, ?st')" for c
    by (rule UpdateJenkinsfile_raw_without_section_eq [OF assms])
  have stored: "getPipeline ?st' projectName pipelineName = Inr ?p'"
    by (rule getPipeline_update)
  have anno: "getAnnotation ?p' PipelineJenkinsfileEditModeAnnoKey = Some PipelineJenkinsfileEditModeRaw"
    by (simp add: getAnnotation_ResourceVersion getAnnotation_setAnnotation)
  have others: "\<forall>k. k \<noteq> PipelineJenkinsfileEditModeAnnoKey \<longrightarrow> getAnnotation ?p' k = getAnnotation p k"
    by (simp add: getAnnotation_ResourceVersion getAnnotation_setAnnotation)
  have spec: "Spec ?p' = Spec p" "Name ?p' = Name p" "ResourceVersion ?p' = Suc (ResourceVersion p)"
    by (simp_all add: Spec_setAnnotation Name_setAnnotation)
  have frame: "projects ?st' = projects st"
    "\<forall>key. key \<noteq> (projectName, pipelineName) \<longrightarrow> pipelines ?st' key = pipelines st key"
    by simp_all
  show ?thesis
    using run stored anno others spec frame assms(3)
    by (intro exI [of _ ?st'] exI [of _ ?p']) simp
qed

theorem UpdateJenkinsfile_raw_without_section_witness:
  "getPipeline demoStore ''proj-ns'' ''mb'' = Inr multiBranchPipe
   \<and> Name multiBranchPipe = ''mb''
   \<and> Pipeline (Spec multiBranchPipe) = None
   \<and> (\<exists>st' p'.
         UpdateJenkinsfile demoStore ''proj-ns'' ''mb'' PipelineJenkinsfileEditModeRaw ''node { new }'' = (None, st')
         \<and> getPipeline st' ''proj-ns'' ''mb'' = Inr p'
         \<and> getAnnotation p' PipelineJenkinsfileEditModeAnnoKey = Some PipelineJenkinsfileEditModeRaw
         \<and> getAnnotation p' PipelineJenkinsfileValueAnnoKey = None
         \<and> Spec p' = Spec multiBranchPipe
         \<and> Pipeline (Spec p') = None
         \<and> UpdateJenkinsfile demoStore ''proj-ns'' ''mb'' PipelineJenkinsfileEditModeRaw ''node { other }'' = (None, st'))"
proof -
  have got: "getPipeline demoStore ''proj-ns'' ''mb'' = Inr multiBranchPipe"
    by (simp add: getPipeline_def demoStore_def)
  have name: "Name multiBranchPipe = ''mb''"
    by (simp add: multiBranchPipe_def)
  have nosec: "Pipeline (Spec multiBranchPipe) = None"
    by (simp add: multiBranchPipe_def)
  have before: "getAnnotation multiBranchPipe PipelineJenkinsfileValueAnnoKey = None"
    by (simp add: getAnnotation_def multiBranchPipe_def)
  from UpdateJenkinsfile_raw_without_section
         [OF got name nosec, of "''node { new }''" "''node { other }''"]
  obtain st' p' where
    run: "UpdateJenkinsfile demoStore ''proj-ns'' ''mb'' PipelineJenkinsfileEditModeRaw ''node { new }'' = (None, st')"
    and stored: "getPipeline st' ''proj-ns'' ''mb'' = Inr p'"
    and mode: "getAnnotation p' PipelineJenkinsfileEditModeAnnoKey = Some PipelineJenkinsfileEditModeRaw"
    and others: "\<forall>k. k \<noteq> PipelineJenkinsfileEditModeAnnoKey \<longrightarrow>
                   getAnnotation p' k = getAnnotation multiBranchPipe k"
    and spec: "Spec p' = Spec multiBranchPipe" "Pipeline (Spec p') = None"
    and again: "UpdateJenkinsfile demoStore ''proj-ns'' ''mb'' PipelineJenkinsfileEditModeRaw ''node { other }'' = (None, st')"
    by blast
  from others anno_keys_distinct before
  have val: "getAnnotation p' PipelineJenkinsfileValueAnnoKey = None"
    by (metis)
  show ?thesis
    using got name nosec run stored mode val spec again by blast
qed

subsection \<open>The aggregator: what the goroutines leave behind\<close>

lemma fold_worker_all_ok:
  assumes "\<forall>i\<in>set order. getNodeSteps (ids ! i) = Inr (steps i)"
    and "length (stepChan s) + length order \<le> channelMaxCapacity"
  shows "fold (\<lambda>i. worker getNodeSteps (ids ! i) i) order s =
           s\<lparr>stepChan := stepChan s @ map (\<lambda>i. \<lparr>Id' = i, Steps = steps i\<rparr>) order,
             wg := wg s - length order\<rparr>"
  using assms
proof (induction order arbitrary: s)
  case Nil
  then show ?case by simp
next
  case (Cons i order)
  have step: "worker getNodeSteps (ids ! i) i s =
                s\<lparr>stepChan := stepChan s @ [\<lparr>Id' = i, Steps = steps i\<rparr>], wg := wg s - 1\<rparr>"
    using Cons.prems by (simp add: worker_def)
  show ?case
    using Cons.prems by (simp add: step Cons.IH)
qed

lemma drain_distinct:
  assumes "distinct order" and "\<forall>i\<in>set order. i < length ds"
  shows "drain (map (\<lambda>i. \<lparr>Id' = i, Steps = steps i\<rparr>) order) ds =
           Some (map (\<lambda>j. if j \<in> set order
                            then (ds ! j)\<lparr>NodesDetail.Steps := NodesDetail.Steps (ds ! j) @ steps j\<rparr>
                            else ds ! j) [0..<length ds])"
  using assms
proof (induction order arbitrary: ds)
  case Nil
  then show ?case by (simp add: map_nth)
next
  case (Cons i order)
  let ?ds' = "ds[i := (ds ! i)\<lparr>NodesDetail.Steps := NodesDetail.Steps (ds ! i) @ steps i\<rparr>]"
  have i: "i < length ds" "i \<notin> set order" using Cons.prems by auto
  have IH: "drain (map (\<lambda>i. \<lparr>Id' = i, Steps = steps i\<rparr>) order) ?ds' =
           Some (map (\<lambda>j. if j \<in> set order
                            then (?ds' ! j)\<lparr>NodesDetail.Steps := NodesDetail.Steps (?ds' ! j) @ steps j\<rparr>
                            else ?ds' ! j) [0..<length ?ds'])"
    using Cons.prems by (intro Cons.IH) auto
  show ?case
    using i by (auto simp: IH Let_def nth_list_update intro!: nth_equalityI)
qed

lemma schedule_length:
  assumes "distinct order" and "set order = {..<n}"
  shows "length order = n"
  using assms distinct_card [of order] by simp

lemma gather_all_ok:
  assumes cap: "length ids \<le> channelMaxCapacity"
    and ok: "\<forall>i<length ids. getNodeSteps (ids ! i) = Inr (steps i)"
    and sched: "distinct order" "set order = {..<length ids}"
    and len: "length ds = length ids"
  shows "gather getNodeSteps ids order ds =
           Return (Inr (map (\<lambda>j. (ds ! j)\<lparr>NodesDetail.Steps := NodesDetail.Steps (ds ! j) @ steps j\<rparr>)
                          [0..<length ds]))"
proof -
  have n: "length order = length ids"
    using sched by (rule schedule_length)
  have ok': "\<forall>i\<in>set order. getNodeSteps (ids ! i) = Inr (steps i)"
    using ok sched(2) by simp
  have run: "fold (\<lambda>i. worker getNodeSteps (ids ! i) i) order \<lparr>stepChan = [], wg = length ids\<rparr> =
               \<lparr>stepChan = map (\<lambda>i. \<lparr>Id' = i, Steps = steps i\<rparr>) order, wg = 0\<rparr>"
    using fold_worker_all_ok [OF ok', of "\<lparr>stepChan = [], wg = length ids\<rparr>"] cap n by simp
  have dr: "drain (map (\<lambda>i. \<lparr>Id' = i, Steps = steps i\<rparr>) order) ds =
              Some (map (\<lambda>j. (ds ! j)\<lparr>NodesDetail.Steps := NodesDetail.Steps (ds ! j) @ steps j\<rparr>)
                      [0..<length ds])"
    using drain_distinct [OF sched(1), of ds steps] sched(2) len by simp
  show ?thesis
    by (simp add: gather_def run dr)
qed

lemma fold_worker_wg_lower:
  "wg s - length (filter (\<lambda>i. \<exists>steps. getNodeSteps (ids ! i) = Inr steps) order)
     \<le> wg (fold (\<lambda>i. worker getNodeSteps (ids ! i) i) order s)"
proof (induction order arbitrary: s)
  case Nil
  then show ?case by simp
next
  case (Cons i order)
  have "wg s - 1 \<le> wg (worker getNodeSteps (ids ! i) i s)"
    by (simp add: worker_def split: sum.splits)
  moreover have "wg (worker getNodeSteps (ids ! i) i s) = wg s" if "\<nexists>steps. getNodeSteps (ids ! i) = Inr steps"
    using that by (simp add: worker_def split: sum.splits)
  ultimately show ?case
    using Cons.IH [of "worker getNodeSteps (ids ! i) i s"]
    by (cases "\<exists>steps. getNodeSteps (ids ! i) = Inr steps") simp_all
qed

lemma fold_worker_chan_bound:
  "length (stepChan (fold (\<lambda>i. worker getNodeSteps (ids ! i) i) order s))
     \<le> max channelMaxCapacity (length (stepChan s))
   \<and> wg s + length (stepChan s)
     \<le> wg (fold (\<lambda>i. worker getNodeSteps (ids ! i) i) order s)
       + length (stepChan (fold (\<lambda>i. worker getNodeSteps (ids ! i) i) order s))"
proof (induction order arbitrary: s)
  case Nil
  then show ?case by simp
next
  case (Cons i order)
  let ?s = "worker getNodeSteps (ids ! i) i s"
  have a: "length (stepChan ?s) \<le> max channelMaxCapacity (length (stepChan s))"
    by (simp add: worker_def split: sum.splits)
  have b: "wg s + length (stepChan s) \<le> wg ?s + length (stepChan ?s)"
    by (cases "getNodeSteps (ids ! i)") (simp_all add: worker_def, arith)
  from Cons.IH [of ?s] a b show ?case
    by auto
qed

lemma gather_Blocked_fetch_fails:
  assumes sched: "distinct order" "set order = {..<length ids}"
    and k: "k < length ids" and fails: "getNodeSteps (ids ! k) = Inl err"
  shows "gather getNodeSteps ids order ds = Blocked"
proof -
  let ?ok = "\<lambda>i. \<exists>steps. getNodeSteps (ids ! i) = Inr steps"
  have "k \<in> set order" "\<not> ?ok k"
    using sched(2) k fails by auto
  then have "length (filter ?ok order) < length order"
    by (rule length_filter_less)
  moreover have "length order = length ids"
    using sched by (rule schedule_length)
  ultimately have "0 < wg (fold (\<lambda>i. worker getNodeSteps (ids ! i) i) order \<lparr>stepChan = [], wg = length ids\<rparr>)"
    using fold_worker_wg_lower [of "\<lparr>stepChan = [], wg = length ids\<rparr>" getNodeSteps ids order]
    by simp
  then show ?thesis
    by (simp add: gather_def)
qed

lemma gather_Blocked_over_capacity:
  assumes "channelMaxCapacity < length ids"
  shows "gather getNodeSteps ids order ds = Blocked"
proof -
  let ?s = "fold (\<lambda>i. worker getNodeSteps (ids ! i) i) order \<lparr>stepChan = [], wg = length ids\<rparr>"
  from fold_worker_chan_bound [of getNodeSteps ids order "\<lparr>stepChan = [], wg = length ids\<rparr>"]
  have "length (stepChan ?s) \<le> channelMaxCapacity" "length ids \<le> wg ?s + length (stepChan ?s)"
    by simp_all
  with assms have "0 < wg ?s" by linarith
  then show ?thesis
    by (simp add: gather_def)
qed

subsection \<open>GetNodesDetail and the capacity of the channel\<close>

text \<open>
  C1. The claim asks, for every node list of length N, for N detail entries in node
  order under every schedule. Every goroutine sends its pair before anything
  receives: the channel holds 100 pairs and is read only after \<open>wg.Wait()\<close>. With 101
  nodes whose step fetches all succeed, 100 goroutines send and finish, the last one
  waits on the full channel, the counter of the wait group stays at one and the call
  never returns.
\<close>

theorem GetNodesDetail_over_capacity_blocks:
  "GetNodesDetail (Inr (replicate 101 nodeA)) stepsOK [0..<101] = Blocked"
proof -
  have "channelMaxCapacity < length (map PipelineRunNodes.ID (replicate 101 nodeA))"
    by (simp add: channelMaxCapacity_def)
  then show ?thesis
    by (simp only: GetNodesDetail_def sum.case gather_Blocked_over_capacity)
qed

text \<open>The same for every node list longer than the capacity, every fetch and every schedule.\<close>

lemma GetNodesDetail_Blocked_over_capacity:
  assumes "channelMaxCapacity < length nodes"
  shows "GetNodesDetail (Inr nodes) getNodeSteps order = Blocked"
  using assms by (simp add: GetNodesDetail_def gather_Blocked_over_capacity)

text \<open>
  Within the capacity, when the step fetch succeeds for every node, and for every
  schedule of the goroutines (hence for every order of the pairs in the channel),
  \<open>GetNodesDetail\<close> returns exactly N detail entries, and the entry at position \<open>i\<close>
  has the fields of the node at position \<open>i\<close> together with the steps fetched for
  that node's identifier.
\<close>

lemma GetNodesDetail_in_node_order:
  assumes "length nodes \<le> channelMaxCapacity"
    and "\<forall>n\<in>set nodes. \<exists>steps. getNodeSteps (PipelineRunNodes.ID n) = Inr steps"
    and "distinct order" and "set order = {..<length nodes}"
  shows "\<exists>details.
           GetNodesDetail (Inr nodes) getNodeSteps order = Return (Inr details)
           \<and> length details = length nodes
           \<and> (\<forall>i<length nodes.
                 PipelineRunNodes.truncate (details ! i) = nodes ! i
                 \<and> getNodeSteps (PipelineRunNodes.ID (nodes ! i)) = Inr (NodesDetail.Steps (details ! i)))"
proof -
  let ?ids = "map PipelineRunNodes.ID nodes"
  let ?ds = "map toNodesDetail nodes"
  define steps where "steps i = projr (getNodeSteps (?ids ! i))" for i
  have ok: "\<forall>i<length ?ids. getNodeSteps (?ids ! i) = Inr (steps i)"
  proof (intro allI impI)
    fix i assume "i < length ?ids"
    then have "nodes ! i \<in> set nodes" by simp
    with assms(2) obtain fetched where "getNodeSteps (PipelineRunNodes.ID (nodes ! i)) = Inr fetched"
      by blast
    then show "getNodeSteps (?ids ! i) = Inr (steps i)"
      using \<open>i < length ?ids\<close> by (simp add: steps_def)
  qed
  let ?out = "map (\<lambda>j. (?ds ! j)\<lparr>NodesDetail.Steps := NodesDetail.Steps (?ds ! j) @ steps j\<rparr>)
                [0..<length ?ds]"
  have "gather getNodeSteps ?ids order ?ds = Return (Inr ?out)"
    using assms(1,3,4) by (intro gather_all_ok ok) simp_all
  then have run: "GetNodesDetail (Inr nodes) getNodeSteps order = Return (Inr ?out)"
    by (simp add: GetNodesDetail_def)
  have entry: "PipelineRunNodes.truncate (?out ! i) = nodes ! i
               \<and> getNodeSteps (PipelineRunNodes.ID (nodes ! i)) = Inr (NodesDetail.Steps (?out ! i))"
    if "i < length nodes" for i
    using that ok
    by (simp add: toNodesDetail_def PipelineRunNodes.truncate_def PipelineRunNodes.extend_def
        NodesDetail.fields_def)
  show ?thesis
    using run entry by (intro exI [of _ ?out]) simp
qed

lemma GetNodesDetail_in_node_order_example:
  "length [nodeA, nodeB] \<le> channelMaxCapacity
   \<and> (\<exists>steps. stepsOK (PipelineRunNodes.ID nodeA) = Inr steps)
   \<and> (\<exists>steps. stepsOK (PipelineRunNodes.ID nodeB) = Inr steps)
   \<and> distinct [1, 0 :: nat]
   \<and> set [1, 0 :: nat] = {..<length [nodeA, nodeB]}
   \<and> (\<exists>details.
         GetNodesDetail (Inr [nodeA, nodeB]) stepsOK [1, 0] = Return (Inr details)
         \<and> length details = 2
         \<and> PipelineRunNodes.truncate (details ! 0) = nodeA
         \<and> stepsOK ''6'' = Inr (NodesDetail.Steps (details ! 0))
         \<and> PipelineRunNodes.truncate (details ! 1) = nodeB
         \<and> stepsOK ''11'' = Inr (NodesDetail.Steps (details ! 1)))"
proof -
  have cap: "length [nodeA, nodeB] \<le> channelMaxCapacity"
    by (simp add: channelMaxCapacity_def)
  have okA: "\<exists>steps. stepsOK (PipelineRunNodes.ID nodeA) = Inr steps"
    and okB: "\<exists>steps. stepsOK (PipelineRunNodes.ID nodeB) = Inr steps"
    by (simp_all add: stepsOK_def nodeA_def nodeB_def)
  have ok: "\<forall>n\<in>set [nodeA, nodeB]. \<exists>steps. stepsOK (PipelineRunNodes.ID n) = Inr steps"
    using okA okB by simp
  have d: "distinct [1, 0 :: nat]" by simp
  have s: "set [1, 0 :: nat] = {..<length [nodeA, nodeB]}" by auto
  from GetNodesDetail_in_node_order [OF cap ok d s]
  obtain details where run: "GetNodesDetail (Inr [nodeA, nodeB]) stepsOK [1, 0] = Return (Inr details)"
    and len: "length details = length [nodeA, nodeB]"
    and each: "\<forall>i<length [nodeA, nodeB].
                 PipelineRunNodes.truncate (details ! i) = [nodeA, nodeB] ! i
                 \<and> stepsOK (PipelineRunNodes.ID ([nodeA, nodeB] ! i)) = Inr (NodesDetail.Steps (details ! i))"
    by blast
  from each have e0: "PipelineRunNodes.truncate (details ! 0) = nodeA
                       \<and> stepsOK ''6'' = Inr (NodesDetail.Steps (details ! 0))"
    by (auto simp: nodeA_def)
  from each have e1: "PipelineRunNodes.truncate (details ! 1) = nodeB
                       \<and> stepsOK ''11'' = Inr (NodesDetail.Steps (details ! 1))"
    by (auto simp: nodeB_def)
  show ?thesis
    using cap okA okB d s run len e0 e1 by auto
qed

subsection \<open>A failed step fetch\<close>

text \<open>
  C2. The claim asks for N entries, an empty step list for the node whose fetch
  failed, and no error. In the source the goroutine of a failed fetch returns before
  \<open>wg.Done()\<close>, so the counter of the wait group never reaches zero: with two nodes,
  the fetch for the second failing, neither \<open>GetNodesDetail\<close> nor
  \<open>GetBranchNodesDetail\<close> returns, under either schedule.
\<close>

theorem GetNodesDetail_failed_fetch_blocks:
  "GetNodesDetail (Inr [nodeA, nodeB]) stepsFailFor11 [0, 1] = Blocked
   \<and> GetNodesDetail (Inr [nodeA, nodeB]) stepsFailFor11 [1, 0] = Blocked
   \<and> GetBranchNodesDetail (Inr [nodeA, nodeB]) stepsFailFor11 [0, 1] = Blocked
   \<and> GetBranchNodesDetail (Inr [nodeA, nodeB]) stepsFailFor11 [1, 0] = Blocked"
  by (simp add: GetNodesDetail_def GetBranchNodesDetail_def gather_def worker_def
      stepsFailFor11_def nodeA_def nodeB_def channelMaxCapacity_def toNodesDetail_def
      PipelineRunNodes.extend_def)

text \<open>The same for every node list, every failing position and every schedule.\<close>

lemma GetNodesDetail_Blocked_if_fetch_fails:
  assumes "distinct order" and "set order = {..<length nodes}"
    and "k < length nodes" and "getNodeSteps (PipelineRunNodes.ID (nodes ! k)) = Inl err"
  shows "GetNodesDetail (Inr nodes) getNodeSteps order = Blocked"
proof -
  have "gather getNodeSteps (map PipelineRunNodes.ID nodes) order (map toNodesDetail nodes) = Blocked"
    using assms by (intro gather_Blocked_fetch_fails [where k = k and err = err]) simp_all
  then show ?thesis
    by (simp add: GetNodesDetail_def)
qed

lemma GetBranchNodesDetail_Blocked_if_fetch_fails:
  assumes "distinct order" and "set order = {..<length nodes}"
    and "k < length nodes" and "getBranchNodeSteps (PipelineRunNodes.ID (nodes ! k)) = Inl err"
  shows "GetBranchNodesDetail (Inr nodes) getBranchNodeSteps order = Blocked"
proof -
  let ?details = "map toNodesDetail nodes"
  have id: "PipelineRunNodes.ID (toNodesDetail n) = PipelineRunNodes.ID n" for n
    by (simp add: toNodesDetail_def PipelineRunNodes.extend_def)
  have "gather getBranchNodeSteps (map PipelineRunNodes.ID ?details) order ?details = Blocked"
    using assms by (intro gather_Blocked_fetch_fails [where k = k and err = err]) (simp_all add: id)
  then show ?thesis
    by (simp add: GetBranchNodesDetail_def Let_def)
qed

subsection \<open>ListDevOpsProject: paging\<close>

lemma wrap64_id: "- (2 ^ 63) \<le> x \<Longrightarrow> x < 2 ^ 63 \<Longrightarrow> wrap64 x = x"
  by (simp add: wrap64_def)

text \<open>
  The upper index of the slice expression in \<open>ListDevOpsProject\<close> is at most the
  length of \<open>result\<close>, so the capacity of the slice plays no part in the bounds check.
\<close>

lemma wrap64_add_wrap64: "wrap64 (a + wrap64 b) = wrap64 (a + b)"
proof -
  have "(a + ((b + 2 ^ 63) mod 2 ^ 64 - 2 ^ 63) + 2 ^ 63) mod 2 ^ 64 = (a + b + 2 ^ 63) mod (2 ^ 64 :: int)"
    by (simp add: mod_simps algebra_simps)
  then show ?thesis
    by (simp add: wrap64_def)
qed

lemma upper_index_within_length:
  assumes "len < 2 ^ 63" and "0 \<le> len"
  shows "wrap64 (offset + (if limit = - 1 \<or> len < wrap64 (limit + offset)
                           then wrap64 (len - offset) else limit)) \<le> len"
proof (cases "limit = - 1 \<or> len < wrap64 (limit + offset)")
  case True
  have "wrap64 (offset + wrap64 (len - offset)) = wrap64 len"
    by (simp add: wrap64_add_wrap64)
  also have "\<dots> = len"
    using assms by (simp add: wrap64_id)
  finally show ?thesis
    using True by simp
next
  case False
  then show ?thesis
    by (simp add: add.commute)
qed

lemma sliceExpr_tail:
  assumes "0 \<le> low" and "low \<le> int (length xs)"
  shows "sliceExpr (if xs = [] then None else Some xs) low (int (length xs)) =
           Return (if xs = [] then None else Some (drop (nat low) xs))"
  using assms by (simp add: sliceExpr_def)

text \<open>
  Within the list (\<open>0 \<le> offset \<le> count\<close>), a limit of \<open>-1\<close> or one that reaches past
  the end yields every item from \<open>offset\<close> on, as a list that is not nil.
\<close>

lemma ListDevOpsProject_to_the_end:
  assumes "0 \<le> offset" and "offset \<le> int (length projectItems)"
    and "int (length projectItems) < 2 ^ 63"
    and "limit = - 1 \<or> int (length projectItems) < wrap64 (limit + offset)"
  shows "ListDevOpsProject (Inr projectItems) workspace limit offset =
           Return (Inr \<lparr>Items = Some (drop (nat offset) projectItems),
                        TotalItems = int (length projectItems)\<rparr>)"
proof -
  have d: "wrap64 (int (length projectItems) - offset) = int (length projectItems) - offset"
    using assms(1-3) by (intro wrap64_id) simp_all
  have h: "wrap64 (int (length projectItems)) = int (length projectItems)"
    using assms(3) by (simp add: wrap64_id)
  have z: "wrap64 0 = 0"
    by (simp add: wrap64_def)
  show ?thesis
    using assms(4) sliceExpr_tail [OF assms(1,2)]
    by (auto simp add: ListDevOpsProject_def Let_def d h z)
qed

text \<open>Beyond the list the slice expression has its lower bound above its upper bound.\<close>

lemma ListDevOpsProject_beyond_count:
  assumes "int (length projectItems) < offset" and "offset < 2 ^ 63"
  shows "ListDevOpsProject (Inr projectItems) workspace (- 1) offset = Panics"
proof -
  have d: "wrap64 (int (length projectItems) - offset) = int (length projectItems) - offset"
    using assms by (intro wrap64_id) simp_all
  have h: "wrap64 (int (length projectItems)) = int (length projectItems)"
    using assms by (simp add: wrap64_id)
  show ?thesis
    using assms(1) by (simp add: ListDevOpsProject_def Let_def d h sliceExpr_def)
qed

text \<open>
  C3. The claim asks that an offset at or beyond the count never panics and yields an
  empty list that is not nil. With one project and offset 2 the slice expression
  \<open>result[2:1]\<close> panics, with limit \<open>-1\<close> as with limit 10; only an offset equal to the
  count gives the empty page.
\<close>

theorem ListDevOpsProject_offset_beyond_count_panics:
  "ListDevOpsProject (Inr [''p1'']) ''ws'' (- 1) 2 = Panics
   \<and> ListDevOpsProject (Inr [''p1'']) ''ws'' 10 2 = Panics
   \<and> ListDevOpsProject (Inr [''p1'', ''p2'']) ''ws'' (- 1) 2 =
       Return (Inr \<lparr>Items = Some [], TotalItems = 2\<rparr>)"
  by (simp add: ListDevOpsProject_def sliceExpr_def wrap64_def)

subsection \<open>ListDevOpsProject: a failed list call\<close>

text \<open>
  C8. The claim asks that the error of the store's list call reaches the caller. The
  source returns \<open>api.ListResult{}, nil\<close> on that path: for every error, workspace, limit
  and offset the call returns the empty result and no error.
\<close>

theorem ListDevOpsProject_swallows_list_error:
  "ListDevOpsProject (Inl err) workspace limit offset = Return (Inr \<lparr>Items = None, TotalItems = 0\<rparr>)"
  by (simp add: ListDevOpsProject_def)

subsection \<open>ListPipelineObj: the objects handed to the generic list routine\<close>

lemma pipelineObjects_fold:
  "fold (\<lambda>item result. if c item then result else result @ [Some item]) items acc =
     acc @ map Some (filter (\<lambda>item. \<not> c item) items)"
  by (induction items arbitrary: acc) simp_all

text \<open>
  The list handed over is one nil entry per fetched pipeline, followed by the
  pipelines that pass the type filter.
\<close>

lemma pipelineObjects_eq:
  "pipelineObjects queryParam pipelineItems =
     replicate (length pipelineItems) None @
     map Some (filter (\<lambda>item. case Filters queryParam FieldType of
                                 None \<Rightarrow> True
                               | Some t \<Rightarrow> Type (Spec item) = t) pipelineItems)"
  by (cases "Filters queryParam FieldType")
    (simp_all add: pipelineObjects_def Let_def pipelineObjects_fold)

text \<open>
  C7. The claim asks for exactly one entry per matching pipeline and no nil
  placeholder. With two pipelines fetched and a type filter that one of them passes,
  the routine receives two nil entries and the matching pipeline; with one pipeline
  and no filter, a nil entry and the pipeline.
\<close>

theorem ListPipelineObj_hands_over_nil_entries:
  "ListPipelineObj demoStore (\<lambda>ns selector. Inr [simplePipe, multiBranchPipe]) (\<lambda>objects q. objects)
     ''proj'' \<lparr>Filters = [FieldType \<mapsto> ''pipeline''], LabelSelector = ''''\<rparr>
     = Inr [None, None, Some simplePipe]
   \<and> ListPipelineObj demoStore (\<lambda>ns selector. Inr [simplePipe]) (\<lambda>objects q. objects)
     ''proj'' \<lparr>Filters = Map.empty, LabelSelector = ''''\<rparr>
     = Inr [None, Some simplePipe]"
  by (simp add: ListPipelineObj_def getProject_def demoStore_def pipelineObjects_def
      simplePipe_def multiBranchPipe_def FieldType_def)

subsection \<open>The HTTP method the proxies forward\<close>

text \<open>
  C9, as amended. For every inbound request and every engine client, the
  stop-pipeline operations (plain and branch) forward the request with its method
  set to PUT and the SCM-server listing forwards it with its method set to GET,
  whatever method the caller used; the replay-pipeline operations (plain and branch)
  forward the request as converted, with the caller's own method.
\<close>

theorem proxies_forwarded_method:
  "StopPipeline stop projectName pipelineName runId req =
     stop projectName pipelineName runId
       ((convertToHttpParameters req)\<lparr>HttpParameters.Method := MethodPut\<rparr>)
   \<and> StopBranchPipeline stopBranch projectName pipelineName branchName runId req =
     stopBranch projectName pipelineName branchName runId
       ((convertToHttpParameters req)\<lparr>HttpParameters.Method := MethodPut\<rparr>)
   \<and> GetSCMServers getServers scmId req =
     getServers scmId ((convertToHttpParameters req)\<lparr>HttpParameters.Method := MethodGet\<rparr>)
   \<and> ReplayPipeline replay projectName pipelineName runId req =
     replay projectName pipelineName runId (convertToHttpParameters req)
   \<and> ReplayBranchPipeline replayBranch projectName pipelineName branchName runId req =
     replayBranch projectName pipelineName branchName runId (convertToHttpParameters req)
   \<and> HttpParameters.Method (convertToHttpParameters req) = Request.Method req"
proof -
  have pass: "(case r of Inl err \<Rightarrow> Inl err | Inr res \<Rightarrow> Inr res) = r" for r :: "error + 'z"
    by (cases r) simp_all
  show ?thesis
    by (simp add: StopPipeline_def StopBranchPipeline_def GetSCMServers_def ReplayPipeline_def
        ReplayBranchPipeline_def pass convertToHttpParameters_def)
qed

text \<open>
  The claim as stated fails for replay: a POST request reaches the engine client as
  POST, not PUT, in the plain and in the branch variant.
\<close>

theorem Replay_keeps_caller_method_counterexample:
  "ReplayPipeline (\<lambda>projectName pipelineName runId params. Inr (HttpParameters.Method params))
      ''proj'' ''build'' ''1'' postRequest = Inr ''POST''
   \<and> ReplayBranchPipeline
        (\<lambda>projectName pipelineName branchName runId params. Inr (HttpParameters.Method params))
      ''proj'' ''build'' ''main'' ''1'' postRequest = Inr ''POST''
   \<and> ''POST'' \<noteq> MethodPut"
  by (simp add: ReplayPipeline_def ReplayBranchPipeline_def convertToHttpParameters_def
      postRequest_def MethodPut_def)

subsection \<open>getInputReqBody\<close>

lemma getInputReqBody_read_error:
  "getInputReqBody unmarshal (Inl err) = Inl err"
  by (simp add: getInputReqBody_def)

lemma getInputReqBody_rewrites:
  assumes "unmarshal body = (e, checkBody)"
    and "\<not> CheckPlayload.Abort checkBody" and "CheckPlayload.Parameters checkBody = None"
  shows "getInputReqBody unmarshal (Inr body) =
           Inr (MarshalWorkRound
                  \<lparr>workRound.ID = CheckPlayload.ID checkBody, workRound.Parameters = Some [],
                   workRound.Abort = False\<rparr>)"
  using assms by (simp add: getInputReqBody_def)

lemma getInputReqBody_passes_through:
  assumes "unmarshal body = (e, checkBody)"
    and "CheckPlayload.Abort checkBody \<or> CheckPlayload.Parameters checkBody \<noteq> None"
  shows "getInputReqBody unmarshal (Inr body) = Inr (MarshalCheckBody checkBody)"
  using assms by (auto simp add: getInputReqBody_def)

text \<open>Once the body has been read, the function returns a body and no error.\<close>

lemma getInputReqBody_never_fails_after_read:
  "\<exists>newReqBody. getInputReqBody unmarshal (Inr body) = Inr newReqBody"
  by (simp add: getInputReqBody_def Let_def split: prod.splits)

text \<open>
  C6. The claim asks that the operation fails with the parse error when the body is
  not valid for the minimal shape. The source assigns the error of \<open>json.Unmarshal\<close>
  and never reads it: for a body made of a single opening brace, which the decoder
  rejects leaving the payload at its zero value, the function returns no error and
  the rewritten body with an empty id and an empty parameter list.
\<close>

theorem getInputReqBody_drops_parse_error:
  "getInputReqBody brokenJSON (Inr ''{'') =
     Inr (MarshalWorkRound
            \<lparr>workRound.ID = [], workRound.Parameters = Some [], workRound.Abort = False\<rparr>)"
  by (simp add: getInputReqBody_def brokenJSON_def zeroCheckPlayload_def)

subsection \<open>UpdatePipelineObj and the stored Jenkinsfile\<close>

lemma storedJenkinsfile_update:
  "storedJenkinsfile (st\<lparr>pipelines := (pipelines st)((ns, name) \<mapsto> p)\<rparr>) ns name =
     map_option Jenkinsfile (Pipeline (Spec p))"
  by (simp add: storedJenkinsfile_def)

text \<open>
  C4, as amended. For every stored pipeline that has the pipeline spec section and
  every caller-supplied pipeline object that has the section too, \<open>UpdatePipelineObj\<close>
  succeeds and never changes the Jenkinsfile field of the stored pipeline's spec: it
  re-fetches the latest stored pipeline and copies its Jenkinsfile field onto the
  caller's object before the update, so the stored section is the caller's with the
  Jenkinsfile of the latest stored pipeline, and the field after the update equals
  the field before it, even when the caller's payload sets a different one.
\<close>

theorem UpdatePipelineObj_keeps_Jenkinsfile:
  assumes "getProject st projectName = Inr projectObj"
    and "getPipeline st (AdminNamespace projectObj) (Name pipeline) = Inr latestPipe"
    and "Pipeline (Spec pipeline) = Some mine"
    and "Pipeline (Spec latestPipe) = Some latest"
  shows "\<exists>stored st'.
           UpdatePipelineObj st projectName pipeline = (Inr stored, st')
           \<and> getPipeline st' (AdminNamespace projectObj) (Name pipeline) = Inr stored
           \<and> Pipeline (Spec stored) = Some (mine\<lparr>Jenkinsfile := Jenkinsfile latest\<rparr>)
           \<and> storedJenkinsfile st (AdminNamespace projectObj) (Name pipeline) = Some (Jenkinsfile latest)
           \<and> storedJenkinsfile st' (AdminNamespace projectObj) (Name pipeline) = Some (Jenkinsfile latest)"
proof -
  let ?ns = "AdminNamespace projectObj"
  let ?obj = "pipeline\<lparr>ResourceVersion := ResourceVersion latestPipe,
                Spec := (Spec pipeline)\<lparr>Pipeline := Some (mine\<lparr>Jenkinsfile := Jenkinsfile latest\<rparr>)\<rparr>\<rparr>"
  have cur: "pipelines st (?ns, Name ?obj) = Some latestPipe"
    using assms(2) by (simp add: getPipeline_Inr_iff)
  have upd: "updatePipeline st ?ns ?obj =
               (Inr (?obj\<lparr>ResourceVersion := Suc (ResourceVersion latestPipe)\<rparr>),
                st\<lparr>pipelines := (pipelines st)((?ns, Name ?obj) \<mapsto>
                      ?obj\<lparr>ResourceVersion := Suc (ResourceVersion latestPipe)\<rparr>)\<rparr>)"
    by (rule updatePipeline_current [OF cur]) simp
  have run: "UpdatePipelineObj st projectName pipeline = updatePipeline st ?ns ?obj"
    using assms by (simp add: UpdatePipelineObj_def Let_def)
  have before: "storedJenkinsfile st ?ns (Name pipeline) = Some (Jenkinsfile latest)"
    using cur assms(4) by (simp add: storedJenkinsfile_def)
  show ?thesis
    unfolding run upd using before
    by (simp add: storedJenkinsfile_def getPipeline_def)
qed

theorem UpdatePipelineObj_keeps_Jenkinsfile_witness:
  "getProject demoStore ''proj'' = Inr \<lparr>ProjectName = ''proj'', AdminNamespace = ''proj-ns''\<rparr>
   \<and> getPipeline demoStore ''proj-ns'' (Name callerWithJenkinsfile) = Inr simplePipe
   \<and> Pipeline (Spec callerWithJenkinsfile) =
       Some \<lparr>Description = ''weekly'', Jenkinsfile = ''node { injected }''\<rparr>
   \<and> Pipeline (Spec simplePipe) = Some \<lparr>Description = ''nightly'', Jenkinsfile = ''node { old }''\<rparr>
   \<and> (\<exists>stored st'.
         UpdatePipelineObj demoStore ''proj'' callerWithJenkinsfile = (Inr stored, st')
         \<and> getPipeline st' ''proj-ns'' ''build'' = Inr stored
         \<and> Pipeline (Spec stored) = Some \<lparr>Description = ''weekly'', Jenkinsfile = ''node { old }''\<rparr>
         \<and> storedJenkinsfile demoStore ''proj-ns'' ''build'' = Some ''node { old }''
         \<and> storedJenkinsfile st' ''proj-ns'' ''build'' = Some ''node { old }'')"
proof -
  have proj: "getProject demoStore ''proj'' = Inr \<lparr>ProjectName = ''proj'', AdminNamespace = ''proj-ns''\<rparr>"
    by (simp add: getProject_def demoStore_def)
  have got: "getPipeline demoStore (AdminNamespace \<lparr>ProjectName = ''proj'', AdminNamespace = ''proj-ns''\<rparr>)
               (Name callerWithJenkinsfile) = Inr simplePipe"
    by (simp add: getPipeline_def demoStore_def callerWithJenkinsfile_def)
  have mine: "Pipeline (Spec callerWithJenkinsfile) =
                Some \<lparr>Description = ''weekly'', Jenkinsfile = ''node { injected }''\<rparr>"
    by (simp add: callerWithJenkinsfile_def)
  have latest: "Pipeline (Spec simplePipe) = Some \<lparr>Description = ''nightly'', Jenkinsfile = ''node { old }''\<rparr>"
    by (simp add: simplePipe_def)
  have name: "Name callerWithJenkinsfile = ''build''"
    by (simp add: callerWithJenkinsfile_def)
  from UpdatePipelineObj_keeps_Jenkinsfile [OF proj got mine latest] proj got mine latest name
  show ?thesis by simp
qed

text \<open>
  The claim as stated fails in three ways. A caller's payload without the pipeline
  spec section: the guard of the source skips the copy and the update replaces the
  stored spec, so the stored Jenkinsfile is gone. A stored pipeline without the
  section and a payload with it: the payload's Jenkinsfile is stored. A pipeline
  edited in json mode, whose Jenkinsfile value is kept in the annotation: only the
  spec field is copied forward, and the annotation of the payload replaces the
  stored one.
\<close>

theorem UpdatePipelineObj_drops_Jenkinsfile_counterexample:
  "storedJenkinsfile demoStore ''proj-ns'' ''build'' = Some ''node { old }''
   \<and> (\<exists>stored. fst (UpdatePipelineObj demoStore ''proj'' callerWithoutSection) = Inr stored)
   \<and> storedJenkinsfile (snd (UpdatePipelineObj demoStore ''proj'' callerWithoutSection))
        ''proj-ns'' ''build'' = None
   \<and> storedJenkinsfile demoStore ''proj-ns'' ''mb'' = None
   \<and> (\<exists>stored. fst (UpdatePipelineObj demoStore ''proj'' callerForMultiBranch) = Inr stored)
   \<and> storedJenkinsfile (snd (UpdatePipelineObj demoStore ''proj'' callerForMultiBranch))
        ''proj-ns'' ''mb'' = Some ''node { injected }''
   \<and> storedAnnotation jsonStore ''proj-ns'' ''release'' PipelineJenkinsfileValueAnnoKey =
        Some ''{json pipeline}''
   \<and> (\<exists>stored. fst (UpdatePipelineObj jsonStore ''proj'' callerWithAnnotation) = Inr stored)
   \<and> storedAnnotation (snd (UpdatePipelineObj jsonStore ''proj'' callerWithAnnotation))
        ''proj-ns'' ''release'' PipelineJenkinsfileValueAnnoKey = Some ''{injected}''"
proof -
  have a: "storedJenkinsfile demoStore ''proj-ns'' ''build'' = Some ''node { old }''
     \<and> (\<exists>stored. fst (UpdatePipelineObj demoStore ''proj'' callerWithoutSection) = Inr stored)
     \<and> storedJenkinsfile (snd (UpdatePipelineObj demoStore ''proj'' callerWithoutSection))
        ''proj-ns'' ''build'' = None"
    by (simp add: UpdatePipelineObj_def getProject_def getPipeline_def updatePipeline_def
        storedJenkinsfile_def demoStore_def simplePipe_def callerWithoutSection_def Let_def)
  have b: "storedJenkinsfile demoStore ''proj-ns'' ''mb'' = None
     \<and> (\<exists>stored. fst (UpdatePipelineObj demoStore ''proj'' callerForMultiBranch) = Inr stored)
     \<and> storedJenkinsfile (snd (UpdatePipelineObj demoStore ''proj'' callerForMultiBranch))
        ''proj-ns'' ''mb'' = Some ''node { injected }''"
    by (simp add: UpdatePipelineObj_def getProject_def getPipeline_def updatePipeline_def
        storedJenkinsfile_def demoStore_def multiBranchPipe_def callerForMultiBranch_def Let_def)
  have c: "storedAnnotation jsonStore ''proj-ns'' ''release'' PipelineJenkinsfileValueAnnoKey =
        Some ''{json pipeline}''
     \<and> (\<exists>stored. fst (UpdatePipelineObj jsonStore ''proj'' callerWithAnnotation) = Inr stored)
     \<and> storedAnnotation (snd (UpdatePipelineObj jsonStore ''proj'' callerWithAnnotation))
        ''proj-ns'' ''release'' PipelineJenkinsfileValueAnnoKey = Some ''{injected}''"
    by (simp add: UpdatePipelineObj_def getProject_def getPipeline_def updatePipeline_def
        storedAnnotation_def getAnnotation_def jsonStore_def jsonPipe_def callerWithAnnotation_def
        Let_def PipelineJenkinsfileValueAnnoKey_def PipelineJenkinsfileEditModeAnnoKey_def)
  from a b c show ?thesis by blast
qed

subsection \<open>UpdateJenkinsfile by edit mode\<close>

lemma UpdateJenkinsfile_json:
  assumes "getPipeline st projectName pipelineName = Inr p" and "Name p = pipelineName"
  shows "UpdateJenkinsfile st projectName pipelineName PipelineJenkinsfileEditModeJSON content =
           (None, st\<lparr>pipelines := (pipelines st)((projectName, pipelineName) \<mapsto>
              (setAnnotation PipelineJenkinsfileValueAnnoKey content
                 (setAnnotation PipelineJenkinsfileEditModeAnnoKey PipelineJenkinsfileEditModeJSON p))
                \<lparr>ResourceVersion := Suc (ResourceVersion p)\<rparr>)\<rparr>)"
proof -
  let ?q = "setAnnotation PipelineJenkinsfileValueAnnoKey content
              (setAnnotation PipelineJenkinsfileEditModeAnnoKey PipelineJenkinsfileEditModeJSON p)"
  have stored: "pipelines st (projectName, Name ?q) = Some p"
    using assms by (simp add: getPipeline_Inr_iff Name_setAnnotation)
  have upd: "updatePipeline st projectName ?q =
               (Inr (?q\<lparr>ResourceVersion := Suc (ResourceVersion p)\<rparr>),
                st\<lparr>pipelines := (pipelines st)((projectName, Name ?q) \<mapsto>
                      ?q\<lparr>ResourceVersion := Suc (ResourceVersion p)\<rparr>)\<rparr>)"
    by (rule updatePipeline_current [OF stored]) (simp add: ResourceVersion_setAnnotation)
  show ?thesis
    using assms(2) by (simp add: UpdateJenkinsfile_def assms(1) upd Name_setAnnotation)
qed

lemma UpdateJenkinsfile_raw:
  assumes "getPipeline st projectName pipelineName = Inr p" and "Name p = pipelineName"
    and "Pipeline (Spec p) = Some np"
  shows "UpdateJenkinsfile st projectName pipelineName PipelineJenkinsfileEditModeRaw content =
           (None, st\<lparr>pipelines := (pipelines st)((projectName, pipelineName) \<mapsto>
              (setAnnotation PipelineJenkinsfileEditModeAnnoKey PipelineJenkinsfileEditModeRaw p)
                \<lparr>Spec := (Spec p)\<lparr>Pipeline := Some (np\<lparr>Jenkinsfile := content\<rparr>)\<rparr>,
                 ResourceVersion := Suc (ResourceVersion p)\<rparr>)\<rparr>)"
proof -
  let ?a = "setAnnotation PipelineJenkinsfileEditModeAnnoKey PipelineJenkinsfileEditModeRaw p"
  let ?q = "?a\<lparr>Spec := (Spec p)\<lparr>Pipeline := Some (np\<lparr>Jenkinsfile := content\<rparr>)\<rparr>\<rparr>"
  have stored: "pipelines st (projectName, Name ?q) = Some p"
    using assms by (simp add: getPipeline_Inr_iff Name_setAnnotation)
  have upd: "updatePipeline st projectName ?q =
               (Inr (?q\<lparr>ResourceVersion := Suc (ResourceVersion p)\<rparr>),
                st\<lparr>pipelines := (pipelines st)((projectName, Name ?q) \<mapsto>
                      ?q\<lparr>ResourceVersion := Suc (ResourceVersion p)\<rparr>)\<rparr>)"
    by (rule updatePipeline_current [OF stored]) (simp add: ResourceVersion_setAnnotation)
  show ?thesis
    using assms(2,3) edit_modes_distinct
    by (simp add: UpdateJenkinsfile_def assms(1) upd Name_setAnnotation Spec_setAnnotation)
qed

text \<open>
  C5, as amended. For every existing pipeline: with mode \<open>json\<close>, \<open>UpdateJenkinsfile\<close>
  stores the content in the Jenkinsfile-value annotation and leaves the spec
  untouched; with mode \<open>raw\<close>, when the pipeline's spec has the nested pipeline
  section, it stores the content in the Jenkinsfile field of that section and leaves
  the Jenkinsfile-value annotation untouched; with any other mode it returns the
  invalid-edit-mode error and the store is unchanged.
\<close>

theorem UpdateJenkinsfile_by_mode:
  assumes "getPipeline st projectName pipelineName = Inr p" and "Name p = pipelineName"
  shows "(\<exists>st' p'.
            UpdateJenkinsfile st projectName pipelineName PipelineJenkinsfileEditModeJSON content = (None, st')
            \<and> getPipeline st' projectName pipelineName = Inr p'
            \<and> getAnnotation p' PipelineJenkinsfileValueAnnoKey = Some content
            \<and> getAnnotation p' PipelineJenkinsfileEditModeAnnoKey = Some PipelineJenkinsfileEditModeJSON
            \<and> Spec p' = Spec p)
       \<and> (\<forall>np. Pipeline (Spec p) = Some np \<longrightarrow>
            (\<exists>st' p'.
               UpdateJenkinsfile st projectName pipelineName PipelineJenkinsfileEditModeRaw content = (None, st')
               \<and> getPipeline st' projectName pipelineName = Inr p'
               \<and> Pipeline (Spec p') = Some (np\<lparr>Jenkinsfile := content\<rparr>)
               \<and> getAnnotation p' PipelineJenkinsfileEditModeAnnoKey = Some PipelineJenkinsfileEditModeRaw
               \<and> getAnnotation p' PipelineJenkinsfileValueAnnoKey =
                   getAnnotation p PipelineJenkinsfileValueAnnoKey))
       \<and> (\<forall>mode. mode \<noteq> PipelineJenkinsfileEditModeJSON \<and> mode \<noteq> PipelineJenkinsfileEditModeRaw \<longrightarrow>
            UpdateJenkinsfile st projectName pipelineName mode content = (Some (InvalidEditMode mode), st))"
proof (intro conjI allI impI)
  show "\<exists>st' p'.
          UpdateJenkinsfile st projectName pipelineName PipelineJenkinsfileEditModeJSON content = (None, st')
          \<and> getPipeline st' projectName pipelineName = Inr p'
          \<and> getAnnotation p' PipelineJenkinsfileValueAnnoKey = Some content
          \<and> getAnnotation p' PipelineJenkinsfileEditModeAnnoKey = Some PipelineJenkinsfileEditModeJSON
          \<and> Spec p' = Spec p"
    using anno_keys_distinct
    by (simp add: UpdateJenkinsfile_json [OF assms] getPipeline_update getAnnotation_setAnnotation
        getAnnotation_ResourceVersion Spec_setAnnotation)
next
  fix np assume "Pipeline (Spec p) = Some np"
  then show "\<exists>st' p'.
               UpdateJenkinsfile st projectName pipelineName PipelineJenkinsfileEditModeRaw content = (None, st')
               \<and> getPipeline st' projectName pipelineName = Inr p'
               \<and> Pipeline (Spec p') = Some (np\<lparr>Jenkinsfile := content\<rparr>)
               \<and> getAnnotation p' PipelineJenkinsfileEditModeAnnoKey = Some PipelineJenkinsfileEditModeRaw
               \<and> getAnnotation p' PipelineJenkinsfileValueAnnoKey =
                   getAnnotation p PipelineJenkinsfileValueAnnoKey"
    using anno_keys_distinct
    by (simp add: UpdateJenkinsfile_raw [OF assms] getPipeline_update getAnnotation_setAnnotation
        getAnnotation_ResourceVersion getAnnotation_Spec)
next
  fix mode
  assume "mode \<noteq> PipelineJenkinsfileEditModeJSON \<and> mode \<noteq> PipelineJenkinsfileEditModeRaw"
  then show "UpdateJenkinsfile st projectName pipelineName mode content = (Some (InvalidEditMode mode), st)"
    by (simp add: UpdateJenkinsfile_def assms(1))
qed

theorem UpdateJenkinsfile_by_mode_witness:
  "getPipeline demoStore ''proj-ns'' ''build'' = Inr simplePipe
   \<and> Name simplePipe = ''build''
   \<and> Pipeline (Spec simplePipe) = Some \<lparr>Description = ''nightly'', Jenkinsfile = ''node { old }''\<rparr>
   \<and> (\<exists>st' p'.
         UpdateJenkinsfile demoStore ''proj-ns'' ''build'' PipelineJenkinsfileEditModeJSON ''node { new }'' = (None, st')
         \<and> getPipeline st' ''proj-ns'' ''build'' = Inr p'
         \<and> getAnnotation p' PipelineJenkinsfileValueAnnoKey = Some ''node { new }''
         \<and> Spec p' = Spec simplePipe)
   \<and> (\<exists>st' p'.
         UpdateJenkinsfile demoStore ''proj-ns'' ''build'' PipelineJenkinsfileEditModeRaw ''node { new }'' = (None, st')
         \<and> getPipeline st' ''proj-ns'' ''build'' = Inr p'
         \<and> Pipeline (Spec p') = Some \<lparr>Description = ''nightly'', Jenkinsfile = ''node { new }''\<rparr>
         \<and> getAnnotation p' PipelineJenkinsfileValueAnnoKey = None)
   \<and> ''yaml'' \<noteq> PipelineJenkinsfileEditModeJSON
   \<and> ''yaml'' \<noteq> PipelineJenkinsfileEditModeRaw
   \<and> UpdateJenkinsfile demoStore ''proj-ns'' ''build'' ''yaml'' ''node { new }'' =
       (Some (InvalidEditMode ''yaml''), demoStore)"
proof -
  have got: "getPipeline demoStore ''proj-ns'' ''build'' = Inr simplePipe"
    by (simp add: getPipeline_def demoStore_def)
  have name: "Name simplePipe = ''build''"
    by (simp add: simplePipe_def)
  have sec: "Pipeline (Spec simplePipe) = Some \<lparr>Description = ''nightly'', Jenkinsfile = ''node { old }''\<rparr>"
    by (simp add: simplePipe_def)
  have noanno: "getAnnotation simplePipe PipelineJenkinsfileValueAnnoKey = None"
    by (simp add: getAnnotation_def simplePipe_def)
  have yaml: "''yaml'' \<noteq> PipelineJenkinsfileEditModeJSON \<and> ''yaml'' \<noteq> PipelineJenkinsfileEditModeRaw"
    by (simp add: PipelineJenkinsfileEditModeJSON_def PipelineJenkinsfileEditModeRaw_def)
  note modes = UpdateJenkinsfile_by_mode [OF got name, of "''node { new }''"]
  from modes have json:
    "\<exists>st' p'.
       UpdateJenkinsfile demoStore ''proj-ns'' ''build'' PipelineJenkinsfileEditModeJSON ''node { new }'' = (None, st')
       \<and> getPipeline st' ''proj-ns'' ''build'' = Inr p'
       \<and> getAnnotation p' PipelineJenkinsfileValueAnnoKey = Some ''node { new }''
       \<and> Spec p' = Spec simplePipe"
    by blast
  from modes sec noanno have raw:
    "\<exists>st' p'.
       UpdateJenkinsfile demoStore ''proj-ns'' ''build'' PipelineJenkinsfileEditModeRaw ''node { new }'' = (None, st')
       \<and> getPipeline st' ''proj-ns'' ''build'' = Inr p'
       \<and> Pipeline (Spec p') = Some \<lparr>Description = ''nightly'', Jenkinsfile = ''node { new }''\<rparr>
       \<and> getAnnotation p' PipelineJenkinsfileValueAnnoKey = None"
    by auto
  from modes yaml have invalid:
    "UpdateJenkinsfile demoStore ''proj-ns'' ''build'' ''yaml'' ''node { new }'' =
       (Some (InvalidEditMode ''yaml''), demoStore)"
    by blast
  show ?thesis
    using got name sec json raw yaml invalid by blast
qed

text \<open>
  The claim as stated speaks of every existing pipeline. For a pipeline without the
  nested pipeline section, mode \<open>raw\<close> succeeds and the content is not in the spec's
  Jenkinsfile field afterwards.
\<close>

theorem UpdateJenkinsfile_raw_not_stored_counterexample:
  "getPipeline demoStore ''proj-ns'' ''mb'' = Inr multiBranchPipe
   \<and> fst (UpdateJenkinsfile demoStore ''proj-ns'' ''mb'' PipelineJenkinsfileEditModeRaw ''node { new }'') = None
   \<and> storedJenkinsfile
        (snd (UpdateJenkinsfile demoStore ''proj-ns'' ''mb'' PipelineJenkinsfileEditModeRaw ''node { new }''))
        ''proj-ns'' ''mb'' \<noteq> Some ''node { new }''"
  by (simp add: UpdateJenkinsfile_def getPipeline_def updatePipeline_def setAnnotation_def
      storedJenkinsfile_def demoStore_def multiBranchPipe_def Let_def
      PipelineJenkinsfileEditModeRaw_def PipelineJenkinsfileEditModeJSON_def)

end
